theory Spec2Isabelle
  imports Main "HOL-Library.AList"
begin

section \<open>Python values, strings and dictionaries\<close>

text \<open>
  The values a decoded notification payload can hold. A Python \<open>str\<close> is a
  \<^typ>\<open>string\<close>; a character stands for the code point of the same number, so the
  model covers strings whose code points are below 256.
\<close>

datatype pyval =
    PNone
  | PBool bool
  | PInt int
  | PStr string
  | PList "pyval list"
  | PDict "(string \<times> pyval) list"

datatype exn =
    IndexError
  | AttributeError
  | KeyError
  | RuntimeError
  | TypeError
  | SystemError
  | Exception string

text \<open>
  A \<open>dict\<close> with string keys is an association list in insertion order. Storing
  under a key that is present replaces the value where it stands; a new key goes
  to the end (this is \<^const>\<open>AList.update\<close>).
\<close>

type_synonym 'v dict = "(string \<times> 'v) list"

definition dict_contains :: "'v dict \<Rightarrow> string \<Rightarrow> bool" where
  "dict_contains d k = (map_of d k \<noteq> None)"

definition dict_getitem :: "'v dict \<Rightarrow> string \<Rightarrow> exn + 'v" where
  "dict_getitem d k = (case map_of d k of None \<Rightarrow> Inl KeyError | Some v \<Rightarrow> Inr v)"

definition dict_update :: "'v dict \<Rightarrow> 'v dict \<Rightarrow> 'v dict" where
  "dict_update d other = fold (\<lambda>(k, v). AList.update k v) other d"

text \<open>
  \<open>str.split()\<close> with no separator: the maximal runs of non-whitespace characters.
  Whitespace is what Python counts as such among the code points below 256.
\<close>

definition isspace :: "char \<Rightarrow> bool" where
  "isspace c =
     (let n = (of_char c :: nat)
      in (9 \<le> n \<and> n \<le> 13) \<or> (28 \<le> n \<and> n \<le> 32) \<or> n = 133 \<or> n = 160)"

fun split_from :: "string \<Rightarrow> string \<Rightarrow> string list" where
  "split_from word [] = (if word = [] then [] else [word])"
| "split_from word (c # cs) =
     (if isspace c then (if word = [] then split_from [] cs else word # split_from [] cs)
      else split_from (word @ [c]) cs)"

definition str_split :: "string \<Rightarrow> string list" where
  "str_split s = split_from [] s"

text \<open>\<open>xs[i]\<close> for a non-negative index, and the attribute lookup \<open>v.split()\<close>.\<close>

definition list_getitem :: "'a list \<Rightarrow> nat \<Rightarrow> exn + 'a" where
  "list_getitem xs i = (if i < length xs then Inr (xs ! i) else Inl IndexError)"

fun split_method :: "pyval \<Rightarrow> exn + string list" where
  "split_method (PStr s) = Inr (str_split s)"
| "split_method v = Inl AttributeError"

section \<open>The notification model\<close>

definition notification_dict :: "pyval dict" where
  "notification_dict =
     [(''id'', PNone),
      (''id_str'', PNone),
      (''umid'', PNone),
      (''umid_str'', PNone),
      (''title'', PNone),
      (''message'', PNone),
      (''app'', PNone),
      (''aid'', PNone),
      (''aid_str'', PNone),
      (''icon'', PNone),
      (''date'', PNone),
      (''queued_date'', PNone),
      (''dispatched_date'', PNone),
      (''priority'', PNone),
      (''sound'', PNone),
      (''url'', PNone),
      (''url_title'', PNone),
      (''acked'', PNone),
      (''receipt'', PNone),
      (''html'', PNone)]"

definition get_notification_model :: "pyval dict \<Rightarrow> pyval dict" where
  "get_notification_model kwargs = dict_update notification_dict kwargs"

section \<open>Handlers and registries\<close>

text \<open>
  A function object: its \<open>__name__\<close> and its identity. Two handlers can share a
  name and still be different objects.
\<close>

datatype FUNCTION = Function (func_name: string) (func_id: nat)

text \<open>The \<open>str | list\<close> command line of a shell alias.\<close>

datatype command_line = CmdStr string | CmdList "string list"

record globals =
  COMMAND_FUNCTIONS_REGISTRY :: "FUNCTION dict"
  COMMAND_PARSERS_REGISTRY :: "FUNCTION dict"
  PARSERS_REGISTRY :: "FUNCTION dict"
  SHELL_COMMANDS_REGISTRY :: "string set"
  SHELL_COMMAND_ALIASES_REGISTRY :: "command_line dict"

text \<open>
  The decorators store the function under its own name and return a wrapper that
  only forwards the call; the model keeps the effect on the registry.
\<close>

definition register_command :: "FUNCTION \<Rightarrow> globals \<Rightarrow> globals" where
  "register_command f g =
     g\<lparr>COMMAND_FUNCTIONS_REGISTRY :=
         dict_update (COMMAND_FUNCTIONS_REGISTRY g) [(func_name f, f)]\<rparr>"

definition register_command_parser :: "FUNCTION \<Rightarrow> globals \<Rightarrow> globals" where
  "register_command_parser f g =
     g\<lparr>COMMAND_PARSERS_REGISTRY :=
         dict_update (COMMAND_PARSERS_REGISTRY g) [(func_name f, f)]\<rparr>"

definition register_parser :: "FUNCTION \<Rightarrow> globals \<Rightarrow> globals" where
  "register_parser f g =
     g\<lparr>PARSERS_REGISTRY := dict_update (PARSERS_REGISTRY g) [(func_name f, f)]\<rparr>"

definition register_shell_command :: "string \<Rightarrow> globals \<Rightarrow> exn + globals" where
  "register_shell_command command g =
     (case list_getitem (str_split command) 0 of
        Inl e \<Rightarrow> Inl e
      | Inr word \<Rightarrow>
          Inr (g\<lparr>SHELL_COMMANDS_REGISTRY := insert word (SHELL_COMMANDS_REGISTRY g)\<rparr>))"

definition register_shell_command_alias ::
    "string \<Rightarrow> command_line \<Rightarrow> globals \<Rightarrow> exn + globals" where
  "register_shell_command_alias alias command_line g =
     (case list_getitem (str_split alias) 0 of
        Inl e \<Rightarrow> Inl e
      | Inr processed_alias \<Rightarrow>
          Inr (g\<lparr>SHELL_COMMAND_ALIASES_REGISTRY :=
                    dict_update (SHELL_COMMAND_ALIASES_REGISTRY g)
                      [(processed_alias, command_line)]\<rparr>))"

definition add_command_function :: "FUNCTION \<Rightarrow> globals \<Rightarrow> globals" where
  "add_command_function function g =
     (let function_name = func_name function
      in g\<lparr>COMMAND_FUNCTIONS_REGISTRY :=
             dict_update (COMMAND_FUNCTIONS_REGISTRY g) [(function_name, function)]\<rparr>)"

definition add_command_parser :: "FUNCTION \<Rightarrow> globals \<Rightarrow> globals" where
  "add_command_parser function g =
     (let function_name = func_name function
      in g\<lparr>COMMAND_PARSERS_REGISTRY :=
             dict_update (COMMAND_PARSERS_REGISTRY g) [(function_name, function)]\<rparr>)"

definition add_parser :: "FUNCTION \<Rightarrow> globals \<Rightarrow> globals" where
  "add_parser function g =
     (let function_name = func_name function
      in g\<lparr>PARSERS_REGISTRY :=
             dict_update (PARSERS_REGISTRY g) [(function_name, function)]\<rparr>)"

definition add_shell_command :: "string \<Rightarrow> globals \<Rightarrow> globals" where
  "add_shell_command command g =
     g\<lparr>SHELL_COMMANDS_REGISTRY := insert command (SHELL_COMMANDS_REGISTRY g)\<rparr>"

definition add_shell_command_alias :: "string \<Rightarrow> command_line \<Rightarrow> globals \<Rightarrow> globals" where
  "add_shell_command_alias alias command_line g =
     g\<lparr>SHELL_COMMAND_ALIASES_REGISTRY :=
         dict_update (SHELL_COMMAND_ALIASES_REGISTRY g) [(alias, command_line)]\<rparr>"

section \<open>Dispatch\<close>

text \<open>
  The state of a run: the module's registries, the mapping objects on the heap
  (the inbound mapping and the records built from it, each at its address), and
  the log of what dispatch called, in order.

  A call of a handler is logged with its positional arguments, its keyword
  arguments (a record argument by its contents at the time of the call) and how
  it ended. What a handler does is a parameter of the model: given the registries
  and the record it is passed, it returns or raises, and leaves both as it pleases.
  Starting a process is taken to succeed, and objects are never collected. A
  Python reference always denotes an object; the model answers an address that
  holds none with \<open>SystemError\<close>.
\<close>

type_synonym addr = nat

datatype arg = AStr string | ARecord "pyval dict"

datatype event =
    is_Invoke: Invoke FUNCTION "arg list" "(string \<times> arg) list" "exn option"
  | is_Popen: Popen command_line

record state =
  glob :: globals
  heap :: "pyval dict list"
  trace :: "event list"

type_synonym behaviour =
  "FUNCTION \<Rightarrow> arg list \<Rightarrow> (string \<times> arg) list \<Rightarrow> globals \<times> pyval dict
     \<Rightarrow> exn option \<times> globals \<times> pyval dict"

definition deref :: "state \<Rightarrow> addr \<Rightarrow> pyval dict option" where
  "deref s a = (if a < length (heap s) then Some (heap s ! a) else None)"

definition alloc :: "pyval dict \<Rightarrow> state \<Rightarrow> addr \<times> state" where
  "alloc d s = (length (heap s), s\<lparr>heap := heap s @ [d]\<rparr>)"

definition invoke ::
    "behaviour \<Rightarrow> FUNCTION \<Rightarrow> arg list \<Rightarrow> (string \<times> arg) list \<Rightarrow> addr \<Rightarrow> pyval dict
       \<Rightarrow> state \<Rightarrow> exn option \<times> state" where
  "invoke B f args kwargs raw_data d s =
     (case B f args kwargs (glob s, d) of
        (r, g', d') \<Rightarrow>
          (r, s\<lparr>glob := g', heap := (heap s)[raw_data := d'],
                trace := trace s @ [Invoke f args kwargs r]\<rparr>))"

text \<open>
  \<open>subprocess.Popen(args=..., shell=True)\<close> takes a string, or any iterable of
  strings (a dictionary is iterated by its keys); anything else is a \<open>TypeError\<close>.
\<close>

fun str_of :: "pyval \<Rightarrow> string option" where
  "str_of (PStr w) = Some w"
| "str_of v = None"

fun popen_args :: "pyval \<Rightarrow> exn + command_line" where
  "popen_args (PStr s) = Inr (CmdStr s)"
| "popen_args (PList vs) =
     (case those (map str_of vs) of None \<Rightarrow> Inl TypeError | Some ws \<Rightarrow> Inr (CmdList ws))"
| "popen_args (PDict kvs) = Inr (CmdList (map fst kvs))"
| "popen_args v = Inl TypeError"

definition subprocess_Popen :: "command_line \<Rightarrow> state \<Rightarrow> exn option \<times> state" where
  "subprocess_Popen args s = (None, s\<lparr>trace := trace s @ [Popen args]\<rparr>)"

fun and_then ::
    "exn option \<times> state \<Rightarrow> (state \<Rightarrow> exn option \<times> state) \<Rightarrow> exn option \<times> state" where
  "and_then (None, s) k = k s"
| "and_then (Some e, s) k = (Some e, s)"

text \<open>\<open>raw_data["message"].split()\<close> on the contents of a record.\<close>

definition message_split :: "pyval dict \<Rightarrow> exn + string list" where
  "message_split d =
     (case dict_getitem d ''message'' of Inl e \<Rightarrow> Inl e | Inr v \<Rightarrow> split_method v)"

definition process_command_function :: "behaviour \<Rightarrow> addr \<Rightarrow> state \<Rightarrow> exn option \<times> state" where
  "process_command_function B raw_data s =
     (case deref s raw_data of None \<Rightarrow> (Some SystemError, s) | Some d \<Rightarrow>
     (case message_split d of Inl e \<Rightarrow> (Some e, s) | Inr arguments \<Rightarrow>
     (case list_getitem arguments 0 of Inl e \<Rightarrow> (Some e, s) | Inr command \<Rightarrow>
     (case dict_getitem (COMMAND_FUNCTIONS_REGISTRY (glob s)) command of
        Inl e \<Rightarrow> (Some e, s)
      | Inr f \<Rightarrow>
          invoke B f (map AStr arguments) [(''raw_data'', ARecord d)] raw_data d s))))"

definition process_parser_command :: "behaviour \<Rightarrow> addr \<Rightarrow> state \<Rightarrow> exn option \<times> state" where
  "process_parser_command B raw_data s =
     (case deref s raw_data of None \<Rightarrow> (Some SystemError, s) | Some d \<Rightarrow>
     (case message_split d of Inl e \<Rightarrow> (Some e, s) | Inr arguments \<Rightarrow>
     (case list_getitem arguments 0 of Inl e \<Rightarrow> (Some e, s) | Inr command \<Rightarrow>
     (case dict_getitem (COMMAND_PARSERS_REGISTRY (glob s)) command of
        Inl e \<Rightarrow> (Some e, s)
      | Inr f \<Rightarrow> invoke B f [ARecord d] [] raw_data d s))))"

text \<open>
  \<open>for parser in PARSERS_REGISTRY\<close> walks the live dictionary: each step first
  checks that its size is the one the loop started with (\<open>RuntimeError\<close>
  otherwise), takes the key at the next position and looks the handler up again.
\<close>

function process_parser_from ::
    "behaviour \<Rightarrow> addr \<Rightarrow> nat \<Rightarrow> nat \<Rightarrow> state \<Rightarrow> exn option \<times> state" where
  "process_parser_from B raw_data n i s =
     (let registry = PARSERS_REGISTRY (glob s) in
      if length registry \<noteq> n then (Some RuntimeError, s)
      else if n \<le> i then (None, s)
      else
        (let parser = fst (registry ! i) in
         (case dict_getitem registry parser of Inl e \<Rightarrow> (Some e, s) | Inr f \<Rightarrow>
         (case deref s raw_data of None \<Rightarrow> (Some SystemError, s) | Some d \<Rightarrow>
         (case invoke B f [ARecord d] [] raw_data d s of
            (Some e, s') \<Rightarrow> (Some e, s')
          | (None, s') \<Rightarrow> process_parser_from B raw_data n (Suc i) s')))))"
  by pat_completeness auto
termination
  by (relation "measure (\<lambda>(B, raw_data, n, i, s). n - i)") auto

declare process_parser_from.simps [simp del]

definition process_parser :: "behaviour \<Rightarrow> addr \<Rightarrow> state \<Rightarrow> exn option \<times> state" where
  "process_parser B raw_data s =
     process_parser_from B raw_data (length (PARSERS_REGISTRY (glob s))) 0 s"

definition process_shell_command :: "addr \<Rightarrow> state \<Rightarrow> exn option \<times> state" where
  "process_shell_command raw_data s =
     (case deref s raw_data of None \<Rightarrow> (Some SystemError, s) | Some d \<Rightarrow>
     (case dict_getitem d ''message'' of Inl e \<Rightarrow> (Some e, s) | Inr arguments_str \<Rightarrow>
     (case popen_args arguments_str of Inl e \<Rightarrow> (Some e, s) | Inr args \<Rightarrow>
        subprocess_Popen args s)))"

definition process_shell_alias :: "addr \<Rightarrow> state \<Rightarrow> exn option \<times> state" where
  "process_shell_alias raw_data s =
     (case deref s raw_data of None \<Rightarrow> (Some SystemError, s) | Some d \<Rightarrow>
     (case message_split d of Inl e \<Rightarrow> (Some e, s) | Inr words \<Rightarrow>
     (case list_getitem words 0 of Inl e \<Rightarrow> (Some e, s) | Inr alias \<Rightarrow>
     (case dict_getitem (SHELL_COMMAND_ALIASES_REGISTRY (glob s)) alias of
        Inl e \<Rightarrow> (Some e, s)
      | Inr command_line_str \<Rightarrow> subprocess_Popen command_line_str s))))"

text \<open>
  \<open>get_notification_model(**message)\<close> reads the inbound mapping and builds the
  record as a new object; the rest of dispatch works on that object. The first
  read of \<open>raw_data["message"]\<close> finds the record as it was just built.
\<close>

definition process_message :: "behaviour \<Rightarrow> addr \<Rightarrow> state \<Rightarrow> exn option \<times> state" where
  "process_message B message s =
     (case deref s message of None \<Rightarrow> (Some SystemError, s) | Some kwargs \<Rightarrow>
     (case alloc (get_notification_model kwargs) s of (raw_data, s0) \<Rightarrow>
     (case message_split (get_notification_model kwargs) of
        Inl e \<Rightarrow> (Some e, s0)
      | Inr arguments \<Rightarrow>
     (case list_getitem arguments 0 of Inl e \<Rightarrow> (Some e, s0) | Inr first_word \<Rightarrow>
       (let command = first_word; alias = first_word in
        and_then
          (if dict_contains (COMMAND_FUNCTIONS_REGISTRY (glob s0)) command
           then process_command_function B raw_data s0 else (None, s0))
          (\<lambda>s1. and_then
            (if dict_contains (COMMAND_PARSERS_REGISTRY (glob s1)) command
             then process_parser_command B raw_data s1 else (None, s1))
          (\<lambda>s2. and_then
            (if command \<in> SHELL_COMMANDS_REGISTRY (glob s2)
             then process_shell_command raw_data s2 else (None, s2))
          (\<lambda>s3. and_then
            (if dict_contains (SHELL_COMMAND_ALIASES_REGISTRY (glob s3)) alias
             then process_shell_alias raw_data s3 else (None, s3))
          (\<lambda>s4. process_parser B raw_data s4)))))))))"

section \<open>What the specification names\<close>

text \<open>The twenty field names of a notification record, as the specification lists them.\<close>

definition canonical_fields :: "string list" where
  "canonical_fields =
     [''id'', ''id_str'', ''umid'', ''umid_str'', ''title'', ''message'', ''app'', ''aid'',
      ''aid_str'', ''icon'', ''date'', ''queued_date'', ''dispatched_date'', ''priority'',
      ''sound'', ''url'', ''url_title'', ''acked'', ''receipt'', ''html'']"


section \<open>Handlers that behave, and runs\<close>

text \<open>
  Handlers are quiet when every call returns normally and leaves the registries
  and the record as they were. \<open>handlers_return\<close> is the behaviour in which every
  handler does just that.
\<close>

definition quiet :: "behaviour \<Rightarrow> bool" where
  "quiet B = (\<forall>f args kwargs g d. B f args kwargs (g, d) = (None, g, d))"

definition handlers_return :: behaviour where
  "handlers_return f args kwargs x = (None, x)"

text \<open>The registries as the module creates them.\<close>

definition empty_globals :: globals where
  "empty_globals =
     \<lparr>COMMAND_FUNCTIONS_REGISTRY = [], COMMAND_PARSERS_REGISTRY = [], PARSERS_REGISTRY = [],
      SHELL_COMMANDS_REGISTRY = {}, SHELL_COMMAND_ALIASES_REGISTRY = []\<rparr>"

text \<open>
  An event in which a handler raised; and the shape of the events of one run that
  ended with \<open>r\<close>: either no handler raised, or the run ended with the exception
  of the one handler that did, and that call is the last event.
\<close>

fun raised :: "event \<Rightarrow> bool" where
  "raised (Invoke f args kwargs (Some e)) = True"
| "raised ev = False"

definition clean :: "exn option \<Rightarrow> event list \<Rightarrow> bool" where
  "clean r evs =
     (list_all (\<lambda>ev. \<not> raised ev) evs
      \<or> (\<exists>e pre f args kwargs.
            r = Some e \<and> evs = pre @ [Invoke f args kwargs (Some e)]
          \<and> list_all (\<lambda>ev. \<not> raised ev) pre))"

definition run_ok :: "state \<Rightarrow> exn option \<times> state \<Rightarrow> bool" where
  "run_ok s rs = (\<exists>evs. trace (snd rs) = trace s @ evs \<and> clean (fst rs) evs)"


section \<open>Example registries and behaviours\<close>

definition example_globals :: globals where
  "example_globals =
     \<lparr>COMMAND_FUNCTIONS_REGISTRY = [(''reboot'', Function ''reboot'' 1)],
      COMMAND_PARSERS_REGISTRY = [(''reboot'', Function ''reboot'' 2)],
      PARSERS_REGISTRY = [(''log'', Function ''log'' 3)],
      SHELL_COMMANDS_REGISTRY = {''ping'', ''reboot''},
      SHELL_COMMAND_ALIASES_REGISTRY =
        [(''deploy'', CmdList [''ssh'', ''host'', ''run-deploy''])]\<rparr>"

definition example_state :: "pyval dict \<Rightarrow> state" where
  "example_state m = \<lparr>glob = example_globals, heap = [m], trace = []\<rparr>"

text \<open>The record that the normalizer builds from a mapping with a message only.\<close>

definition example_record :: "pyval \<Rightarrow> pyval dict" where
  "example_record v =
     [(''id'', PNone), (''id_str'', PNone), (''umid'', PNone), (''umid_str'', PNone),
      (''title'', PNone), (''message'', v), (''app'', PNone), (''aid'', PNone),
      (''aid_str'', PNone), (''icon'', PNone), (''date'', PNone), (''queued_date'', PNone),
      (''dispatched_date'', PNone), (''priority'', PNone), (''sound'', PNone),
      (''url'', PNone), (''url_title'', PNone), (''acked'', PNone), (''receipt'', PNone),
      (''html'', PNone)]"

text \<open>The behaviour in which the handler with identity \<open>n\<close> raises and the others return.\<close>

definition handler_raises :: "nat \<Rightarrow> behaviour" where
  "handler_raises n f args kwargs x =
     (if func_id f = n then (Some (Exception ''boom''), x) else (None, x))"


section \<open>The normalizer\<close>

lemma map_of_dict_update_rev: "map_of (dict_update d other) = map_of d ++ map_of (rev other)"
  unfolding dict_update_def
  by (induction other arbitrary: d)
     (auto simp: AList.update_conv' map_add_def fun_eq_iff split: option.splits)

lemma map_of_dict_update:
  "distinct (map fst other) \<Longrightarrow> map_of (dict_update d other) = map_of d ++ map_of other"
proof -
  assume "distinct (map fst other)"
  then have "map_of (rev other) = map_of other"
    by (subst map_of_inject_set) (simp_all add: rev_map[symmetric])
  then show ?thesis by (simp add: map_of_dict_update_rev)
qed

lemma keys_dict_update: "fst ` set (dict_update d other) = fst ` set d \<union> fst ` set other"
  unfolding dict_update_def
proof (induction other arbitrary: d)
  case Nil
  show ?case by simp
next
  case (Cons p other)
  obtain k v where p: "p = (k, v)" by (cases p)
  show ?case
    using Cons.IH[of "AList.update k v d"] by (simp add: p AList.dom_update)
qed

lemma distinct_dict_update:
  "distinct (map fst d) \<Longrightarrow> distinct (map fst (dict_update d other))"
  unfolding dict_update_def
  by (induction other arbitrary: d) (auto simp: AList.distinct_update)

lemma notification_dict_canonical:
  "notification_dict = map (\<lambda>F. (F, PNone)) canonical_fields"
  by (simp add: notification_dict_def canonical_fields_def)

lemma length_canonical_fields: "length canonical_fields = 20"
  by (simp add: canonical_fields_def)

lemma map_of_notification_dict:
  "F \<in> set canonical_fields \<Longrightarrow> map_of notification_dict F = Some PNone"
  unfolding notification_dict_canonical
  by (simp add: map_of_map_restrict)

section \<open>Dispatch with quiet handlers\<close>

lemma deref_trace [simp]: "deref (s\<lparr>trace := t\<rparr>) a = deref s a"
  by (simp add: deref_def)

lemma quiet_handlers_return: "quiet handlers_return"
  by (simp add: quiet_def handlers_return_def)

lemma invoke_quiet:
  assumes "quiet B" "deref s raw_data = Some d"
  shows "invoke B f args kwargs raw_data d s =
    (None, s\<lparr>trace := trace s @ [Invoke f args kwargs None]\<rparr>)"
proof -
  from assms(2) have "(heap s)[raw_data := d] = heap s"
    by (auto simp: deref_def split: if_splits)
  with assms(1) show ?thesis by (simp add: invoke_def quiet_def)
qed

lemma message_split_str:
  "map_of d ''message'' = Some (PStr msg) \<Longrightarrow> message_split d = Inr (str_split msg)"
  by (simp add: message_split_def dict_getitem_def)

lemma process_command_function_quiet:
  assumes "quiet B" "deref s raw_data = Some d" "map_of d ''message'' = Some (PStr msg)"
    "str_split msg = w # ws" "map_of (COMMAND_FUNCTIONS_REGISTRY (glob s)) w = Some f"
  shows "process_command_function B raw_data s =
    (None, s\<lparr>trace := trace s @
       [Invoke f (map AStr (w # ws)) [(''raw_data'', ARecord d)] None]\<rparr>)"
  using assms invoke_quiet[OF assms(1,2)]
  by (simp add: process_command_function_def message_split_str list_getitem_def
      dict_getitem_def)

lemma process_parser_command_quiet:
  assumes "quiet B" "deref s raw_data = Some d" "map_of d ''message'' = Some (PStr msg)"
    "str_split msg = w # ws" "map_of (COMMAND_PARSERS_REGISTRY (glob s)) w = Some f"
  shows "process_parser_command B raw_data s =
    (None, s\<lparr>trace := trace s @ [Invoke f [ARecord d] [] None]\<rparr>)"
  using assms invoke_quiet[OF assms(1,2)]
  by (simp add: process_parser_command_def message_split_str list_getitem_def
      dict_getitem_def)

lemma process_shell_command_str:
  assumes "deref s raw_data = Some d" "map_of d ''message'' = Some (PStr msg)"
  shows "process_shell_command raw_data s =
    (None, s\<lparr>trace := trace s @ [Popen (CmdStr msg)]\<rparr>)"
  using assms by (simp add: process_shell_command_def dict_getitem_def subprocess_Popen_def)

lemma process_shell_alias_str:
  assumes "deref s raw_data = Some d" "map_of d ''message'' = Some (PStr msg)"
    "str_split msg = w # ws" "map_of (SHELL_COMMAND_ALIASES_REGISTRY (glob s)) w = Some cl"
  shows "process_shell_alias raw_data s = (None, s\<lparr>trace := trace s @ [Popen cl]\<rparr>)"
  using assms
  by (simp add: process_shell_alias_def message_split_str list_getitem_def dict_getitem_def
      subprocess_Popen_def)

lemma map_of_nth_key: "i < length xs \<Longrightarrow> map_of xs (fst (xs ! i)) \<noteq> None"
  by (metis domIff dom_map_of_conv_image_fst image_eqI nth_mem)


text \<open>The calls of the loop over the global parsers, as the code looks them up.\<close>

lemma process_parser_from_quiet:
  assumes "quiet B" "deref s raw_data = Some d" "length (PARSERS_REGISTRY (glob s)) = n"
  shows "process_parser_from B raw_data n i s =
    (None, s\<lparr>trace := trace s @
       map (\<lambda>p. Invoke (the (map_of (PARSERS_REGISTRY (glob s)) (fst p))) [ARecord d] [] None)
         (drop i (PARSERS_REGISTRY (glob s)))\<rparr>)"
  using assms(2-3)
proof (induction k \<equiv> "n - i" arbitrary: i s)
  case 0
  then show ?case by (simp add: process_parser_from.simps[of B raw_data n i s])
next
  case (Suc k)
  let ?reg = "PARSERS_REGISTRY (glob s)"
  let ?f = "the (map_of ?reg (fst (?reg ! i)))"
  let ?s' = "s\<lparr>trace := trace s @ [Invoke ?f [ARecord d] [] None]\<rparr>"
  from Suc have i: "i < length ?reg" by simp
  have look: "dict_getitem ?reg (fst (?reg ! i)) = Inr ?f"
    using map_of_nth_key[OF i] by (auto simp: dict_getitem_def)
  have inv: "invoke B ?f [ARecord d] [] raw_data d s = (None, ?s')"
    by (rule invoke_quiet[OF assms(1) Suc.prems(1)])
  have IH: "process_parser_from B raw_data n (Suc i) ?s' =
      (None, ?s'\<lparr>trace := trace ?s' @
         map (\<lambda>p. Invoke (the (map_of (PARSERS_REGISTRY (glob ?s')) (fst p))) [ARecord d] [] None)
           (drop (Suc i) (PARSERS_REGISTRY (glob ?s')))\<rparr>)"
    using Suc.prems Suc.hyps(2) by (intro Suc.hyps(1)) auto
  have dr: "drop i ?reg = ?reg ! i # drop (Suc i) ?reg"
    using i by (simp add: Cons_nth_drop_Suc)
  show ?case
    using i Suc.prems look inv IH dr
    by (simp add: process_parser_from.simps[of B raw_data n i s] Let_def)
qed

lemma process_parser_quiet:
  assumes "quiet B" "deref s raw_data = Some d"
  shows "process_parser B raw_data s =
    (None, s\<lparr>trace := trace s @
       map (\<lambda>p. Invoke (the (map_of (PARSERS_REGISTRY (glob s)) (fst p))) [ARecord d] [] None)
         (PARSERS_REGISTRY (glob s))\<rparr>)"
  using process_parser_from_quiet[OF assms refl, of 0] by (simp add: process_parser_def)

text \<open>The events of one dispatch with quiet handlers, as the code produces them.\<close>

lemma process_message_quiet:
  assumes "quiet B" "deref s message = Some kwargs"
    "map_of (get_notification_model kwargs) ''message'' = Some (PStr msg)"
    "str_split msg = w # ws"
  shows "process_message B message s =
    (None, s\<lparr>heap := heap s @ [get_notification_model kwargs],
             trace := trace s @
               (case map_of (COMMAND_FUNCTIONS_REGISTRY (glob s)) w of
                  Some f \<Rightarrow> [Invoke f (map AStr (w # ws))
                               [(''raw_data'', ARecord (get_notification_model kwargs))] None]
                | None \<Rightarrow> [])
             @ (case map_of (COMMAND_PARSERS_REGISTRY (glob s)) w of
                  Some f \<Rightarrow> [Invoke f [ARecord (get_notification_model kwargs)] [] None]
                | None \<Rightarrow> [])
             @ (if w \<in> SHELL_COMMANDS_REGISTRY (glob s) then [Popen (CmdStr msg)] else [])
             @ (case map_of (SHELL_COMMAND_ALIASES_REGISTRY (glob s)) w of
                  Some command_line \<Rightarrow> [Popen command_line]
                | None \<Rightarrow> [])
             @ map (\<lambda>p. Invoke (the (map_of (PARSERS_REGISTRY (glob s)) (fst p)))
                          [ARecord (get_notification_model kwargs)] [] None)
                 (PARSERS_REGISTRY (glob s))\<rparr>)"
proof -
  let ?d = "get_notification_model kwargs"
  let ?rd = "length (heap s)"
  let ?s0 = "s\<lparr>heap := heap s @ [?d]\<rparr>"
  have d0: "\<And>t. deref (?s0\<lparr>trace := t\<rparr>) ?rd = Some ?d" by (simp add: deref_def)
  have d0': "deref ?s0 ?rd = Some ?d" by (simp add: deref_def)
  show ?thesis
    using assms
    apply (simp add: process_message_def alloc_def message_split_str list_getitem_def
        dict_contains_def Let_def)
    apply (cases "map_of (COMMAND_FUNCTIONS_REGISTRY (glob s)) w";
           cases "map_of (COMMAND_PARSERS_REGISTRY (glob s)) w";
           cases "w \<in> SHELL_COMMANDS_REGISTRY (glob s)";
           cases "map_of (SHELL_COMMAND_ALIASES_REGISTRY (glob s)) w")
    apply (simp_all add: process_command_function_quiet[OF assms(1) _ assms(3,4)]
        process_parser_command_quiet[OF assms(1) _ assms(3,4)]
        process_shell_command_str[OF _ assms(3)] process_shell_alias_str[OF _ assms(3,4)]
        process_parser_quiet[OF assms(1)] d0 d0')
    done
qed

section \<open>The events of a run\<close>

lemma clean_Nil: "clean r []" by (simp add: clean_def)

lemma run_ok_same: "trace s' = trace s \<Longrightarrow> run_ok s (r, s')"
  by (simp add: run_ok_def clean_def)

lemma run_ok_shift: "trace s0 = trace s \<Longrightarrow> run_ok s0 rs \<Longrightarrow> run_ok s rs"
  by (simp add: run_ok_def)

lemma run_ok_invoke: "run_ok s (invoke B f args kwargs raw_data d s)"
proof -
  obtain r g' d' where B: "B f args kwargs (glob s, d) = (r, g', d')"
    by (cases "B f args kwargs (glob s, d)")
  have "clean r [Invoke f args kwargs r]"
    by (cases r) (auto simp: clean_def)
  then show ?thesis
    unfolding run_ok_def invoke_def B by (auto intro!: exI[of _ "[Invoke f args kwargs r]"])
qed

lemma run_ok_Popen: "run_ok s (subprocess_Popen args s)"
  unfolding run_ok_def subprocess_Popen_def
  by (auto intro!: exI[of _ "[Popen args]"] simp: clean_def)

lemma run_ok_trans:
  assumes "run_ok s (None, s1)" "run_ok s1 rs"
  shows "run_ok s rs"
proof -
  from assms(1) obtain evs1 where 1: "trace s1 = trace s @ evs1" "list_all (\<lambda>ev. \<not> raised ev) evs1"
    by (auto simp: run_ok_def clean_def)
  from assms(2) obtain evs2 where 2: "trace (snd rs) = trace s1 @ evs2" "clean (fst rs) evs2"
    by (auto simp: run_ok_def)
  from 1(2) 2(2) have "clean (fst rs) (evs1 @ evs2)"
    unfolding clean_def
    apply (elim disjE exE conjE)
     apply simp
    apply (rule disjI2)
    subgoal for e pre f args kwargs
      by (rule exI[of _ e], rule exI[of _ "evs1 @ pre"]) auto
    done
  with 1(1) 2(1) show ?thesis by (auto simp: run_ok_def)
qed

lemma run_ok_and_then:
  assumes "run_ok s p" "\<And>s1. run_ok s1 (K s1)"
  shows "run_ok s (and_then p K)"
proof (cases p)
  case (Pair r s1)
  show ?thesis
  proof (cases r)
    case None
    with Pair assms(1) have "run_ok s (None, s1)" by simp
    from run_ok_trans[OF this assms(2)] show ?thesis by (simp add: Pair None)
  next
    case (Some e)
    with Pair assms(1) show ?thesis by simp
  qed
qed

lemma run_ok_process_command_function: "run_ok s (process_command_function B raw_data s)"
  by (auto simp: process_command_function_def run_ok_same run_ok_invoke split: option.splits sum.splits)

lemma run_ok_process_parser_command: "run_ok s (process_parser_command B raw_data s)"
  by (auto simp: process_parser_command_def run_ok_same run_ok_invoke split: option.splits sum.splits)

lemma run_ok_process_shell_command: "run_ok s (process_shell_command raw_data s)"
  by (auto simp: process_shell_command_def run_ok_same run_ok_Popen split: option.splits sum.splits)

lemma run_ok_process_shell_alias: "run_ok s (process_shell_alias raw_data s)"
  by (auto simp: process_shell_alias_def run_ok_same run_ok_Popen split: option.splits sum.splits)

lemma run_ok_process_parser_from: "run_ok s (process_parser_from B raw_data n i s)"
proof (induction k \<equiv> "n - i" arbitrary: i s)
  case 0
  then show ?case
    by (simp add: process_parser_from.simps[of B raw_data n i s] Let_def run_ok_same)
next
  case (Suc k)
  have IH: "\<And>s'. run_ok s' (process_parser_from B raw_data n (Suc i) s')"
    using Suc.hyps(2) by (intro Suc.hyps(1)) auto
  show ?case
  proof (cases "length (PARSERS_REGISTRY (glob s)) \<noteq> n \<or> n \<le> i")
    case True
    then show ?thesis
      by (auto simp: process_parser_from.simps[of B raw_data n i s] Let_def run_ok_same)
  next
    case False
    show ?thesis
    proof (cases "dict_getitem (PARSERS_REGISTRY (glob s)) (fst (PARSERS_REGISTRY (glob s) ! i))")
      case (Inl e)
      with False show ?thesis
        by (simp add: process_parser_from.simps[of B raw_data n i s] Let_def run_ok_same)
    next
      case (Inr f)
      show ?thesis
      proof (cases "deref s raw_data")
        case None
        with False Inr show ?thesis
          by (simp add: process_parser_from.simps[of B raw_data n i s] Let_def run_ok_same)
      next
        case (Some d)
        obtain r s' where inv: "invoke B f [ARecord d] [] raw_data d s = (r, s')"
          by (cases "invoke B f [ARecord d] [] raw_data d s")
        have ok: "run_ok s (r, s')" using run_ok_invoke[of s B f "[ARecord d]" "[]" raw_data d] inv by simp
        show ?thesis
        proof (cases r)
          case None
          from ok None run_ok_trans[OF _ IH[of s']] have "run_ok s (process_parser_from B raw_data n (Suc i) s')"
            by simp
          with False Inr Some inv None show ?thesis
            by (simp add: process_parser_from.simps[of B raw_data n i s] Let_def)
        next
          case (Some e)
          with False Inr \<open>deref s raw_data = Some d\<close> inv ok show ?thesis
            by (simp add: process_parser_from.simps[of B raw_data n i s] Let_def)
        qed
      qed
    qed
  qed
qed

lemma run_ok_process_parser: "run_ok s (process_parser B raw_data s)"
  by (simp add: process_parser_def run_ok_process_parser_from)

lemma run_ok_process_message: "run_ok s (process_message B message s)"
proof -
  have chain: "\<And>s0 rd c P. run_ok s0
     (and_then
          (if P then process_command_function B rd s0 else (None, s0))
          (\<lambda>s1. and_then
            (if dict_contains (COMMAND_PARSERS_REGISTRY (glob s1)) c
             then process_parser_command B rd s1 else (None, s1))
          (\<lambda>s2. and_then
            (if c \<in> SHELL_COMMANDS_REGISTRY (glob s2)
             then process_shell_command rd s2 else (None, s2))
          (\<lambda>s3. and_then
            (if dict_contains (SHELL_COMMAND_ALIASES_REGISTRY (glob s3)) c
             then process_shell_alias rd s3 else (None, s3))
          (\<lambda>s4. process_parser B rd s4)))))"
    by (intro run_ok_and_then)
       (simp_all add: run_ok_same run_ok_process_command_function run_ok_process_parser_command
          run_ok_process_shell_command run_ok_process_shell_alias run_ok_process_parser)
  show ?thesis
  proof (cases "deref s message")
    case None
    then show ?thesis by (simp add: process_message_def run_ok_same)
  next
    case (Some kwargs)
    let ?s0 = "s\<lparr>heap := heap s @ [get_notification_model kwargs]\<rparr>"
    have t: "trace ?s0 = trace s" by simp
    show ?thesis
    proof (cases "message_split (get_notification_model kwargs)")
      case (Inl e)
      with Some show ?thesis by (simp add: process_message_def alloc_def run_ok_same)
    next
      case (Inr arguments)
      show ?thesis
      proof (cases "list_getitem arguments 0")
        case (Inl e)
        with Some Inr show ?thesis by (simp add: process_message_def alloc_def run_ok_same)
      next
        case (Inr first_word)
        with Some \<open>message_split (get_notification_model kwargs) = Inr arguments\<close>
        show ?thesis
          by (simp add: process_message_def alloc_def Let_def run_ok_shift[OF t chain])
      qed
    qed
  qed
qed

section \<open>What a run leaves alone\<close>













section \<open>Evaluating the examples\<close>

lemma example_record_eq: "get_notification_model [(''message'', v)] = example_record v"
  by (simp add: get_notification_model_def dict_update_def notification_dict_def example_record_def)

lemma example_record_empty: "get_notification_model [] = example_record PNone"
  by (simp add: get_notification_model_def dict_update_def notification_dict_def example_record_def)

lemma example_record_message: "map_of (example_record v) ''message'' = Some v"
  by (simp add: example_record_def)

lemma deref_example: "deref (example_state m) 0 = Some m"
  by (simp add: deref_def example_state_def)

lemma split_reboot_now: "str_split ''reboot now'' = [''reboot'', ''now'']"
  by (simp add: str_split_def isspace_def)





section \<open>The first call of a dispatch\<close>

lemma run_ok_tail:
  "run_ok s1
     (and_then
            (if dict_contains (COMMAND_PARSERS_REGISTRY (glob s1)) c
             then process_parser_command B rd s1 else (None, s1))
          (\<lambda>s2. and_then
            (if c \<in> SHELL_COMMANDS_REGISTRY (glob s2)
             then process_shell_command rd s2 else (None, s2))
          (\<lambda>s3. and_then
            (if dict_contains (SHELL_COMMAND_ALIASES_REGISTRY (glob s3)) c
             then process_shell_alias rd s3 else (None, s3))
          (\<lambda>s4. process_parser B rd s4))))"
  by (intro run_ok_and_then)
     (simp_all add: run_ok_same run_ok_process_parser_command
        run_ok_process_shell_command run_ok_process_shell_alias run_ok_process_parser)

lemma run_ok_traceD: "run_ok s rs \<Longrightarrow> \<exists>evs. trace (snd rs) = trace s @ evs"
  by (auto simp: run_ok_def)

lemma and_then_traceD:
  assumes "\<And>s1. run_ok s1 (K s1)"
  shows "\<exists>evs. trace (snd (and_then (r, s1) K)) = trace s1 @ evs"
  using run_ok_traceD[OF assms[of s1]] by (cases r) auto

section \<open>Messages without a token\<close>

lemma split_from_Nil_iff:
  "split_from word s = [] \<longleftrightarrow> word = [] \<and> (\<forall>c \<in> set s. isspace c)"
  by (induction word s rule: split_from.induct) auto

lemma str_split_Nil_iff: "str_split s = [] \<longleftrightarrow> (\<forall>c \<in> set s. isspace c)"
  by (simp add: str_split_def split_from_Nil_iff)

lemma absent_message:
  assumes "''message'' \<notin> fst ` set kwargs"
  shows "map_of (get_notification_model kwargs) ''message'' = Some PNone"
proof -
  from assms have "map_of (rev kwargs) ''message'' = None"
    by (simp add: map_of_eq_None_iff)
  then show ?thesis
    by (simp add: get_notification_model_def map_of_dict_update_rev map_add_def
        notification_dict_def)
qed

section \<open>The processes of a run\<close>


section \<open>A handler that raises\<close>

lemma not_raised_last:
  assumes "list_all (\<lambda>ev. \<not> raised ev) pre" "raised ev"
    "before @ ev # later = pre @ [x]"
  shows "later = [] \<and> x = ev"
proof (cases later rule: rev_cases)
  case Nil
  with assms(3) show ?thesis by simp
next
  case (snoc ys y)
  with assms(3) have "(before @ ev # ys) @ [y] = pre @ [x]" by simp
  then have "pre = before @ ev # ys" by (simp only: append1_eq_conv)
  with assms(1,2) show ?thesis by simp
qed

lemma run_ok_raised_last:
  assumes "run_ok s rs"
    "trace (snd rs) = trace s @ before @ Invoke f args kwargs (Some e) # later"
  shows "later = [] \<and> fst rs = Some e"
proof -
  let ?ev = "Invoke f args kwargs (Some e)"
  from assms obtain evs where evs: "evs = before @ ?ev # later" "clean (fst rs) evs"
    by (auto simp: run_ok_def)
  have "\<not> list_all (\<lambda>ev. \<not> raised ev) evs" by (simp add: evs(1))
  with evs(2) obtain e' pre f' args' kwargs' where
    c: "fst rs = Some e'" "evs = pre @ [Invoke f' args' kwargs' (Some e')]"
       "list_all (\<lambda>ev. \<not> raised ev) pre"
    by (auto simp: clean_def)
  from not_raised_last[OF c(3), of ?ev before later "Invoke f' args' kwargs' (Some e')"] evs(1) c(2)
  have "later = [] \<and> Invoke f' args' kwargs' (Some e') = ?ev" by simp
  with c(1) show ?thesis by simp
qed

lemma run_reboot_parser_raises:
  "process_message (handler_raises 3) 0 (example_state [(''message'', PStr ''reboot now'')]) =
     (Some (Exception ''boom''),
      \<lparr>glob = example_globals,
       heap = [[(''message'', PStr ''reboot now'')], example_record (PStr ''reboot now'')],
       trace = [Invoke (Function ''reboot'' 1) [AStr ''reboot'', AStr ''now'']
                  [(''raw_data'', ARecord (example_record (PStr ''reboot now'')))] None,
                Invoke (Function ''reboot'' 2) [ARecord (example_record (PStr ''reboot now''))] [] None,
                Popen (CmdStr ''reboot now''),
                Invoke (Function ''log'' 3) [ARecord (example_record (PStr ''reboot now''))] []
                  (Some (Exception ''boom''))]\<rparr>)"
  by (simp add: process_message_def deref_def alloc_def example_record_eq example_record_message
      message_split_str split_reboot_now list_getitem_def example_state_def example_globals_def
      dict_contains_def process_command_function_def process_parser_command_def
      process_shell_command_def process_shell_alias_def process_parser_def
      process_parser_from.simps dict_getitem_def invoke_def handler_raises_def
      subprocess_Popen_def Let_def)

section \<open>Registration\<close>

lemma dict_update_single: "dict_update d [(k, v)] = AList.update k v d"
  by (simp add: dict_update_def)

lemma dict_getitem_update: "dict_getitem (AList.update k v d) k = Inr v"
  by (simp add: dict_getitem_def AList.update_conv')

lemma update_idem: "AList.update k v (AList.update k v d) = AList.update k v d"
  by simp

lemma list_getitem_0_Cons: "list_getitem (w # ws) 0 = Inr w"
  by (simp add: list_getitem_def)

lemma list_getitem_0_Nil: "list_getitem [] 0 = Inl IndexError"
  by (simp add: list_getitem_def)


section \<open>The claims\<close>




text \<open>
  Claim C2. When the first whitespace token of the normalized message is a key
  of the command function registry, the first thing dispatch does is to call the
  handler stored under it, with the tokens of the whole message as positional
  arguments (the command word first) and the normalized record as the keyword
  argument \<open>raw_data\<close>; whatever the handlers do. For the message "reboot now" the
  positional arguments are "reboot" and "now".
\<close>

theorem process_message_command_function:
  assumes "deref s message = Some kwargs"
    "map_of (get_notification_model kwargs) ''message'' = Some (PStr msg)"
    "str_split msg = command # rest"
    "map_of (COMMAND_FUNCTIONS_REGISTRY (glob s)) command = Some f"
  shows "\<exists>later. trace (snd (process_message B message s)) =
      trace s @
      Invoke f (map AStr (str_split msg))
        [(''raw_data'', ARecord (get_notification_model kwargs))]
        (fst (B f (map AStr (str_split msg))
               [(''raw_data'', ARecord (get_notification_model kwargs))]
               (glob s, get_notification_model kwargs)))
      # later"
proof -
  let ?d = "get_notification_model kwargs"
  let ?rd = "length (heap s)"
  let ?s0 = "s\<lparr>heap := heap s @ [?d]\<rparr>"
  let ?args = "map AStr (command # rest)"
  let ?kw = "[(''raw_data'', ARecord ?d)]"
  obtain r g' d' where B: "B f ?args ?kw (glob s, ?d) = (r, g', d')"
    by (cases "B f ?args ?kw (glob s, ?d)")
  let ?s1 = "?s0\<lparr>glob := g', heap := (heap ?s0)[?rd := d'],
                 trace := trace s @ [Invoke f ?args ?kw r]\<rparr>"
  have pcf: "process_command_function B ?rd ?s0 = (r, ?s1)"
    using assms B
    by (simp add: process_command_function_def deref_def message_split_str list_getitem_def
        dict_getitem_def invoke_def)
  let ?K = "(\<lambda>s1. and_then
            (if dict_contains (COMMAND_PARSERS_REGISTRY (glob s1)) command
             then process_parser_command B ?rd s1 else (None, s1))
          (\<lambda>s2. and_then
            (if command \<in> SHELL_COMMANDS_REGISTRY (glob s2)
             then process_shell_command ?rd s2 else (None, s2))
          (\<lambda>s3. and_then
            (if dict_contains (SHELL_COMMAND_ALIASES_REGISTRY (glob s3)) command
             then process_shell_alias ?rd s3 else (None, s3))
          (\<lambda>s4. process_parser B ?rd s4))))"
  have pm: "process_message B message s = and_then (r, ?s1) ?K"
    using assms pcf
    by (simp add: process_message_def alloc_def message_split_str list_getitem_def
        dict_contains_def Let_def)
  have "\<exists>evs. trace (snd (and_then (r, ?s1) ?K)) = trace ?s1 @ evs"
    by (rule and_then_traceD) (rule run_ok_tail)
  then obtain evs where "trace (snd (process_message B message s)) = trace ?s1 @ evs"
    unfolding pm by blast
  then show ?thesis using B assms(3) by simp
qed

theorem process_message_command_function_witness:
  "deref (example_state [(''message'', PStr ''reboot now'')]) 0 = Some [(''message'', PStr ''reboot now'')]
   \<and> str_split ''reboot now'' = [''reboot'', ''now'']
   \<and> map_of (COMMAND_FUNCTIONS_REGISTRY example_globals) ''reboot'' = Some (Function ''reboot'' 1)
   \<and> (\<exists>later. trace (snd (process_message (handler_raises 3) 0
                  (example_state [(''message'', PStr ''reboot now'')]))) =
        Invoke (Function ''reboot'' 1) [AStr ''reboot'', AStr ''now'']
          [(''raw_data'', ARecord (example_record (PStr ''reboot now'')))] None # later)"
proof -
  let ?m = "[(''message'', PStr ''reboot now'')]"
  have 1: "deref (example_state ?m) 0 = Some ?m" by (rule deref_example)
  have 2: "map_of (get_notification_model ?m) ''message'' = Some (PStr ''reboot now'')"
    by (simp add: example_record_eq example_record_message)
  have 3: "str_split ''reboot now'' = [''reboot'', ''now'']" by (rule split_reboot_now)
  have 4: "map_of (COMMAND_FUNCTIONS_REGISTRY (glob (example_state ?m))) ''reboot''
      = Some (Function ''reboot'' 1)"
    by (simp add: example_state_def example_globals_def)
  show ?thesis
    using 1 3 4 process_message_command_function[OF 1 2 3 4, of "handler_raises 3"]
    by (simp add: example_record_eq split_reboot_now example_state_def handler_raises_def)
qed

text \<open>
  Claim C3. The normalizer is a total function of its input mapping alone, and its
  result is the input laid over the record that binds each of the 20 canonical
  field names to \<open>None\<close>: a canonical field of the empty input is \<open>None\<close>, a
  canonical field that is supplied has the supplied value, every key of the input
  (canonical or not) keeps its value, and the keys of the result are the canonical
  names together with the keys of the input. The input is a dictionary, so its
  keys are distinct.
\<close>

theorem get_notification_model_overlay:
  assumes "distinct (map fst kwargs)"
  shows "map_of (get_notification_model kwargs) = map_of notification_dict ++ map_of kwargs
    \<and> notification_dict = map (\<lambda>F. (F, PNone)) canonical_fields
    \<and> length canonical_fields = 20
    \<and> (\<forall>F \<in> set canonical_fields.
          map_of (get_notification_model []) F = Some PNone
        \<and> (\<forall>v. map_of (get_notification_model [(F, v)]) F = Some v))
    \<and> (\<forall>(k, v) \<in> set kwargs. map_of (get_notification_model kwargs) k = Some v)
    \<and> fst ` set (get_notification_model kwargs) = set canonical_fields \<union> fst ` set kwargs"
proof (intro conjI)
  show "map_of (get_notification_model kwargs) = map_of notification_dict ++ map_of kwargs"
    using assms by (simp add: get_notification_model_def map_of_dict_update)
  show "notification_dict = map (\<lambda>F. (F, PNone)) canonical_fields"
    by (rule notification_dict_canonical)
  show "length canonical_fields = 20" by (rule length_canonical_fields)
  show "\<forall>F \<in> set canonical_fields.
          map_of (get_notification_model []) F = Some PNone
        \<and> (\<forall>v. map_of (get_notification_model [(F, v)]) F = Some v)"
    by (simp add: get_notification_model_def map_of_dict_update map_of_notification_dict)
  show "\<forall>(k, v) \<in> set kwargs. map_of (get_notification_model kwargs) k = Some v"
    using assms by (auto simp: get_notification_model_def map_of_dict_update map_add_def)
  show "fst ` set (get_notification_model kwargs) = set canonical_fields \<union> fst ` set kwargs"
    by (simp add: get_notification_model_def keys_dict_update notification_dict_canonical
        image_image)
qed

theorem get_notification_model_overlay_witness:
  "distinct (map fst [(''message'', PStr ''hi''), (''topic'', PStr ''t'')])
   \<and> map_of (get_notification_model [(''message'', PStr ''hi''), (''topic'', PStr ''t'')])
        ''message'' = Some (PStr ''hi'')
   \<and> map_of (get_notification_model [(''message'', PStr ''hi''), (''topic'', PStr ''t'')])
        ''topic'' = Some (PStr ''t'')
   \<and> map_of (get_notification_model [(''message'', PStr ''hi''), (''topic'', PStr ''t'')])
        ''title'' = Some PNone"
proof -
  have h: "distinct (map fst [(''message'', PStr ''hi''), (''topic'', PStr ''t'')])"
    by simp
  show ?thesis
    using h get_notification_model_overlay [OF h] by (simp add: notification_dict_def)
qed

text \<open>
  Claim C4, amended. When the normalized \<open>message\<close> is a string without a token
  (empty, or whitespace only), dispatch raises \<open>IndexError\<close>; when it is not a
  string, as the \<open>None\<close> of an absent message is, dispatch raises
  \<open>AttributeError\<close>. In both cases the exception reaches the caller, no handler
  of any registry is called and nothing is spawned: the state is the one before
  the call with the new record added.
\<close>

theorem process_message_no_token:
  assumes "deref s message = Some kwargs"
  shows "(\<forall>msg. map_of (get_notification_model kwargs) ''message'' = Some (PStr msg)
             \<and> (\<forall>c \<in> set msg. isspace c)
           \<longrightarrow> process_message B message s =
                 (Some IndexError, s\<lparr>heap := heap s @ [get_notification_model kwargs]\<rparr>))
       \<and> (\<forall>v. map_of (get_notification_model kwargs) ''message'' = Some v \<and> str_of v = None
           \<longrightarrow> process_message B message s =
                 (Some AttributeError, s\<lparr>heap := heap s @ [get_notification_model kwargs]\<rparr>))
       \<and> (''message'' \<notin> fst ` set kwargs
           \<longrightarrow> map_of (get_notification_model kwargs) ''message'' = Some PNone)"
proof (intro conjI allI impI)
  fix msg
  assume "map_of (get_notification_model kwargs) ''message'' = Some (PStr msg)
             \<and> (\<forall>c \<in> set msg. isspace c)"
  then show "process_message B message s =
                 (Some IndexError, s\<lparr>heap := heap s @ [get_notification_model kwargs]\<rparr>)"
    using assms
    by (simp add: process_message_def alloc_def message_split_str str_split_Nil_iff[symmetric]
        list_getitem_def)
next
  fix v
  assume a: "map_of (get_notification_model kwargs) ''message'' = Some v \<and> str_of v = None"
  then have "split_method v = Inl AttributeError" by (cases v) auto
  with a show "process_message B message s =
                 (Some AttributeError, s\<lparr>heap := heap s @ [get_notification_model kwargs]\<rparr>)"
    using assms
    by (simp add: process_message_def alloc_def message_split_def dict_getitem_def)
next
  assume "''message'' \<notin> fst ` set kwargs"
  then show "map_of (get_notification_model kwargs) ''message'' = Some PNone"
    by (rule absent_message)
qed

theorem process_message_no_token_witness:
  "deref (example_state [(''message'', PStr '''')]) 0 = Some [(''message'', PStr '''')]
   \<and> process_message handlers_return 0 (example_state [(''message'', PStr '''')]) =
       (Some IndexError,
        \<lparr>glob = example_globals, heap = [[(''message'', PStr '''')], example_record (PStr '''')],
         trace = []\<rparr>)"
proof -
  let ?m = "[(''message'', PStr '''')]"
  have 1: "deref (example_state ?m) 0 = Some ?m" by (rule deref_example)
  have 2: "map_of (get_notification_model ?m) ''message'' = Some (PStr '''')
     \<and> (\<forall>c \<in> set ''''. isspace c)"
    by (simp add: example_record_eq example_record_message)
  from process_message_no_token[OF 1, of handlers_return] 2
  have "process_message handlers_return 0 (example_state ?m) =
     (Some IndexError, (example_state ?m)\<lparr>heap := heap (example_state ?m) @ [get_notification_model ?m]\<rparr>)"
    by blast
  with 1 show ?thesis by (simp add: example_state_def example_record_eq)
qed

text \<open>
  Claim C4 as stated fails for an absent message: the normalized message is
  \<open>None\<close>, and dispatch raises \<open>AttributeError\<close>, not \<open>IndexError\<close>.
\<close>

theorem process_message_absent_message:
  "map_of [] ''message'' = (None :: pyval option)
   \<and> process_message handlers_return 0 (example_state []) =
       (Some AttributeError,
        \<lparr>glob = example_globals, heap = [[], example_record PNone], trace = []\<rparr>)"
  by (simp add: process_message_def deref_def alloc_def example_record_empty
      message_split_def dict_getitem_def example_record_message example_state_def)

text \<open>
  Claim C5, at the input "ls -la". The function \<open>register_shell_command\<close>
  stores the first token "ls"; the method \<open>add_shell_command\<close> stores the whole
  string "ls -la", a key that no first token can equal: dispatch of the message
  "ls -la" then spawns nothing.
\<close>

theorem add_shell_command_keeps_whole_string:
  "SHELL_COMMANDS_REGISTRY (add_shell_command ''ls -la'' empty_globals) = {''ls -la''}
   \<and> register_shell_command ''ls -la'' empty_globals =
       Inr (empty_globals\<lparr>SHELL_COMMANDS_REGISTRY := {''ls''}\<rparr>)
   \<and> process_message handlers_return 0
        \<lparr>glob = add_shell_command ''ls -la'' empty_globals,
         heap = [[(''message'', PStr ''ls -la'')]], trace = []\<rparr> =
       (None,
        \<lparr>glob = add_shell_command ''ls -la'' empty_globals,
         heap = [[(''message'', PStr ''ls -la'')], example_record (PStr ''ls -la'')],
         trace = []\<rparr>)"
proof -
  have sp: "str_split ''ls -la'' = [''ls'', ''-la'']"
    by (simp add: str_split_def isspace_def)
  have a: "SHELL_COMMANDS_REGISTRY (add_shell_command ''ls -la'' empty_globals) = {''ls -la''}"
    by (simp add: add_shell_command_def empty_globals_def)
  have b: "register_shell_command ''ls -la'' empty_globals =
       Inr (empty_globals\<lparr>SHELL_COMMANDS_REGISTRY := {''ls''}\<rparr>)"
    by (simp add: register_shell_command_def sp list_getitem_def empty_globals_def)
  let ?s = "\<lparr>glob = add_shell_command ''ls -la'' empty_globals,
         heap = [[(''message'', PStr ''ls -la'')]], trace = []\<rparr>"
  have "process_message handlers_return 0 ?s =
     (None, ?s\<lparr>heap := heap ?s @ [get_notification_model [(''message'', PStr ''ls -la'')]],
        trace := trace ?s @
               (case map_of (COMMAND_FUNCTIONS_REGISTRY (glob ?s)) ''ls'' of
                  Some f \<Rightarrow> [Invoke f (map AStr [''ls'', ''-la''])
                               [(''raw_data'', ARecord (get_notification_model [(''message'', PStr ''ls -la'')]))] None]
                | None \<Rightarrow> [])
             @ (case map_of (COMMAND_PARSERS_REGISTRY (glob ?s)) ''ls'' of
                  Some f \<Rightarrow> [Invoke f [ARecord (get_notification_model [(''message'', PStr ''ls -la'')])] [] None]
                | None \<Rightarrow> [])
             @ (if ''ls'' \<in> SHELL_COMMANDS_REGISTRY (glob ?s) then [Popen (CmdStr ''ls -la'')] else [])
             @ (case map_of (SHELL_COMMAND_ALIASES_REGISTRY (glob ?s)) ''ls'' of
                  Some command_line \<Rightarrow> [Popen command_line]
                | None \<Rightarrow> [])
             @ map (\<lambda>p. Invoke (the (map_of (PARSERS_REGISTRY (glob ?s)) (fst p)))
                          [ARecord (get_notification_model [(''message'', PStr ''ls -la'')])] [] None)
                 (PARSERS_REGISTRY (glob ?s))\<rparr>)"
    by (rule process_message_quiet[OF quiet_handlers_return _ _ sp])
       (simp_all add: deref_def example_record_eq example_record_message)
  then have c: "process_message handlers_return 0 ?s =
       (None,
        \<lparr>glob = add_shell_command ''ls -la'' empty_globals,
         heap = [[(''message'', PStr ''ls -la'')], example_record (PStr ''ls -la'')],
         trace = []\<rparr>)"
    by (simp add: example_record_eq add_shell_command_def empty_globals_def)
  from a b c show ?thesis by blast
qed





text \<open>
  Claim C8. An exception raised by a handler during dispatch is not caught: if
  the log of a dispatch holds a call that raised, that call is the last event of
  the dispatch, so no later path ran, and the dispatch ends with that exception;
  the events before it stay in the log. In particular, when the command function
  of the first token raises, the dispatch ends there with its exception: the
  command parser, shell command, shell alias and global parser paths do not run,
  and the registries and the record are as the handler left them.
\<close>

theorem handler_exception_aborts_dispatch:
  "(trace (snd (process_message B message s)) =
       trace s @ before @ Invoke f args kws (Some e) # later
     \<longrightarrow> later = [] \<and> fst (process_message B message s) = Some e)
   \<and> (deref s message = Some kwargs
      \<and> map_of (get_notification_model kwargs) ''message'' = Some (PStr msg)
      \<and> str_split msg = command # rest
      \<and> map_of (COMMAND_FUNCTIONS_REGISTRY (glob s)) command = Some h
      \<and> B h (map AStr (command # rest))
            [(''raw_data'', ARecord (get_notification_model kwargs))]
            (glob s, get_notification_model kwargs) = (Some e', g', d')
     \<longrightarrow> process_message B message s =
           (Some e',
            s\<lparr>glob := g', heap := heap s @ [d'],
              trace := trace s @
                [Invoke h (map AStr (command # rest))
                   [(''raw_data'', ARecord (get_notification_model kwargs))] (Some e')]\<rparr>))"
proof (rule conjI; rule impI)
  assume "trace (snd (process_message B message s)) =
       trace s @ before @ Invoke f args kws (Some e) # later"
  from run_ok_raised_last[OF run_ok_process_message this]
  show "later = [] \<and> fst (process_message B message s) = Some e" .
next
  assume a: "deref s message = Some kwargs
      \<and> map_of (get_notification_model kwargs) ''message'' = Some (PStr msg)
      \<and> str_split msg = command # rest
      \<and> map_of (COMMAND_FUNCTIONS_REGISTRY (glob s)) command = Some h
      \<and> B h (map AStr (command # rest))
            [(''raw_data'', ARecord (get_notification_model kwargs))]
            (glob s, get_notification_model kwargs) = (Some e', g', d')"
  let ?d = "get_notification_model kwargs"
  let ?s0 = "s\<lparr>heap := heap s @ [?d]\<rparr>"
  have pcf: "process_command_function B (length (heap s)) ?s0 =
     (Some e', s\<lparr>glob := g', heap := heap s @ [d'],
              trace := trace s @
                [Invoke h (map AStr (command # rest)) [(''raw_data'', ARecord ?d)] (Some e')]\<rparr>)"
    using a
    by (simp add: process_command_function_def deref_def message_split_str list_getitem_def
        dict_getitem_def invoke_def)
  show "process_message B message s =
           (Some e',
            s\<lparr>glob := g', heap := heap s @ [d'],
              trace := trace s @
                [Invoke h (map AStr (command # rest))
                   [(''raw_data'', ARecord (get_notification_model kwargs))] (Some e')]\<rparr>)"
    using a pcf
    by (simp add: process_message_def alloc_def message_split_str list_getitem_def
        dict_contains_def Let_def)
qed

theorem handler_exception_aborts_dispatch_witness:
  "trace (snd (process_message (handler_raises 3) 0
       (example_state [(''message'', PStr ''reboot now'')]))) =
     [] @ [Invoke (Function ''reboot'' 1) [AStr ''reboot'', AStr ''now'']
                  [(''raw_data'', ARecord (example_record (PStr ''reboot now'')))] None,
           Invoke (Function ''reboot'' 2) [ARecord (example_record (PStr ''reboot now''))] [] None,
           Popen (CmdStr ''reboot now'')]
        @ Invoke (Function ''log'' 3) [ARecord (example_record (PStr ''reboot now''))] []
                  (Some (Exception ''boom'')) # []
   \<and> fst (process_message (handler_raises 3) 0
       (example_state [(''message'', PStr ''reboot now'')])) = Some (Exception ''boom'')
   \<and> process_message (handler_raises 1) 0 (example_state [(''message'', PStr ''reboot now'')]) =
       (Some (Exception ''boom''),
        \<lparr>glob = example_globals,
         heap = [[(''message'', PStr ''reboot now'')], example_record (PStr ''reboot now'')],
         trace = [Invoke (Function ''reboot'' 1) [AStr ''reboot'', AStr ''now'']
                  [(''raw_data'', ARecord (example_record (PStr ''reboot now'')))]
                  (Some (Exception ''boom''))]\<rparr>)"
proof -
  let ?m = "[(''message'', PStr ''reboot now'')]"
  let ?r = "example_record (PStr ''reboot now'')"
  let ?s = "example_state ?m"
  have t: "trace (snd (process_message (handler_raises 3) 0 ?s)) =
     trace ?s @ [Invoke (Function ''reboot'' 1) [AStr ''reboot'', AStr ''now'']
                  [(''raw_data'', ARecord ?r)] None,
           Invoke (Function ''reboot'' 2) [ARecord ?r] [] None,
           Popen (CmdStr ''reboot now'')]
        @ Invoke (Function ''log'' 3) [ARecord ?r] [] (Some (Exception ''boom'')) # []"
    unfolding run_reboot_parser_raises by (simp add: example_state_def)
  have h: "deref ?s 0 = Some ?m
      \<and> map_of (get_notification_model ?m) ''message'' = Some (PStr ''reboot now'')
      \<and> str_split ''reboot now'' = ''reboot'' # [''now'']
      \<and> map_of (COMMAND_FUNCTIONS_REGISTRY (glob ?s)) ''reboot'' = Some (Function ''reboot'' 1)
      \<and> handler_raises 1 (Function ''reboot'' 1) (map AStr (''reboot'' # [''now'']))
            [(''raw_data'', ARecord (get_notification_model ?m))]
            (glob ?s, get_notification_model ?m)
          = (Some (Exception ''boom''), glob ?s, get_notification_model ?m)"
    by (simp add: deref_def example_record_eq example_record_message split_reboot_now
        example_state_def example_globals_def handler_raises_def)
  note first = handler_exception_aborts_dispatch[of "handler_raises 3" 0 ?s
      "[Invoke (Function ''reboot'' 1) [AStr ''reboot'', AStr ''now''] [(''raw_data'', ARecord ?r)] None,
           Invoke (Function ''reboot'' 2) [ARecord ?r] [] None, Popen (CmdStr ''reboot now'')]"
      "Function ''log'' 3" "[ARecord ?r]" "[]" "Exception ''boom''" "[]"]
  note second = handler_exception_aborts_dispatch[of "handler_raises 1" 0 ?s _ _ _ _ _ _ ?m "''reboot now''" "''reboot''" "[''now'']"
      "Function ''reboot'' 1" "Exception ''boom''" "glob ?s" "get_notification_model ?m"]
  from first t have 1: "fst (process_message (handler_raises 3) 0 ?s) = Some (Exception ''boom'')"
    by blast
  from second h have 2: "process_message (handler_raises 1) 0 ?s =
       (Some (Exception ''boom''),
        ?s\<lparr>glob := glob ?s, heap := heap ?s @ [get_notification_model ?m],
          trace := trace ?s @ [Invoke (Function ''reboot'' 1) (map AStr (''reboot'' # [''now'']))
                  [(''raw_data'', ARecord (get_notification_model ?m))]
                  (Some (Exception ''boom''))]\<rparr>)"
    by blast
  from t 1 2 show ?thesis
    by (simp add: example_state_def example_record_eq)
qed

text \<open>
  Claim C9, amended. In each of the three handler registries, through the
  decorator or through the method, registering \<open>h1\<close> and then \<open>h2\<close> under the same
  name gives the registry that registering \<open>h2\<close> alone gives, the name resolves
  to \<open>h2\<close>, and registering a handler twice is the same as registering it once;
  these operations cannot fail. The same holds for command lines in the alias
  registry through the method \<open>add_shell_command_alias\<close>, and adding a shell
  command twice is the same as adding it once. The functions
  \<open>register_shell_command_alias\<close> and \<open>register_shell_command\<close> act as the
  methods do on the first whitespace token of the name they are given, and raise
  \<open>IndexError\<close> when the name has no token.
\<close>

theorem registration_last_wins:
  assumes "func_name h1 = func_name h2"
  shows
    "register_command h2 (register_command h1 g) = register_command h2 g
   \<and> dict_getitem (COMMAND_FUNCTIONS_REGISTRY (register_command h2 (register_command h1 g)))
        (func_name h1) = Inr h2
   \<and> register_command h2 (register_command h2 g) = register_command h2 g
   \<and> add_command_function h1 g = register_command h1 g
   \<and> register_command_parser h2 (register_command_parser h1 g) = register_command_parser h2 g
   \<and> dict_getitem
        (COMMAND_PARSERS_REGISTRY (register_command_parser h2 (register_command_parser h1 g)))
        (func_name h1) = Inr h2
   \<and> register_command_parser h2 (register_command_parser h2 g) = register_command_parser h2 g
   \<and> add_command_parser h1 g = register_command_parser h1 g
   \<and> register_parser h2 (register_parser h1 g) = register_parser h2 g
   \<and> dict_getitem (PARSERS_REGISTRY (register_parser h2 (register_parser h1 g)))
        (func_name h1) = Inr h2
   \<and> register_parser h2 (register_parser h2 g) = register_parser h2 g
   \<and> add_parser h1 g = register_parser h1 g
   \<and> add_shell_command_alias alias c2 (add_shell_command_alias alias c1 g)
        = add_shell_command_alias alias c2 g
   \<and> dict_getitem
        (SHELL_COMMAND_ALIASES_REGISTRY
          (add_shell_command_alias alias c2 (add_shell_command_alias alias c1 g)))
        alias = Inr c2
   \<and> add_shell_command_alias alias c2 (add_shell_command_alias alias c2 g)
        = add_shell_command_alias alias c2 g
   \<and> add_shell_command alias (add_shell_command alias g) = add_shell_command alias g
   \<and> (\<forall>word ws. str_split alias = word # ws \<longrightarrow>
          register_shell_command_alias alias c1 g = Inr (add_shell_command_alias word c1 g)
        \<and> register_shell_command alias g = Inr (add_shell_command word g))
   \<and> (str_split alias = [] \<longrightarrow>
          register_shell_command_alias alias c1 g = Inl IndexError
        \<and> register_shell_command alias g = Inl IndexError)"
  using assms
  by (simp add: register_command_def register_command_parser_def register_parser_def
      add_command_function_def add_command_parser_def add_parser_def
      add_shell_command_alias_def add_shell_command_def register_shell_command_alias_def
      register_shell_command_def dict_update_single dict_getitem_update
      list_getitem_0_Cons list_getitem_0_Nil Let_def)

theorem registration_last_wins_witness:
  "func_name (Function ''reboot'' 1) = func_name (Function ''reboot'' 7)
   \<and> dict_getitem
        (COMMAND_FUNCTIONS_REGISTRY
          (register_command (Function ''reboot'' 7)
            (register_command (Function ''reboot'' 1) example_globals)))
        ''reboot'' = Inr (Function ''reboot'' 7)
   \<and> COMMAND_FUNCTIONS_REGISTRY
          (register_command (Function ''reboot'' 7)
            (register_command (Function ''reboot'' 1) example_globals))
       = [(''reboot'', Function ''reboot'' 7)]"
proof -
  have h: "func_name (Function ''reboot'' 1) = func_name (Function ''reboot'' 7)" by simp
  note c = registration_last_wins[OF h, of example_globals]
  have r: "register_command (Function ''reboot'' 7) example_globals
      = example_globals\<lparr>COMMAND_FUNCTIONS_REGISTRY := [(''reboot'', Function ''reboot'' 7)]\<rparr>"
    by (simp add: register_command_def dict_update_def example_globals_def)
  have a: "register_command (Function ''reboot'' 7)
            (register_command (Function ''reboot'' 1) example_globals)
         = register_command (Function ''reboot'' 7) example_globals"
    by (rule c[THEN conjunct1])
  have b: "dict_getitem
        (COMMAND_FUNCTIONS_REGISTRY
          (register_command (Function ''reboot'' 7)
            (register_command (Function ''reboot'' 1) example_globals)))
        (func_name (Function ''reboot'' 1)) = Inr (Function ''reboot'' 7)"
    by (rule c[THEN conjunct2, THEN conjunct1])
  from h a b r show ?thesis by simp
qed

text \<open>
  Claim C9 as stated fails where it says that registration never fails:
  registering an alias under the empty name raises \<open>IndexError\<close>.
\<close>

theorem register_shell_command_alias_no_token:
  "register_shell_command_alias '''' (CmdStr ''ls'') empty_globals = Inl IndexError"
  by (simp add: register_shell_command_alias_def str_split_def list_getitem_def)



end
